theory Spec2Isabelle
  imports Complex_Main
begin

section \<open>Vortex plot: the modulus circle of \<open>vortex.py\<close>\<close>

text \<open>
  The script draws \<open>modulus\<close> points on a circle and joins them by arrows that follow
  the recurrence \<open>next = digital_root (current * multiplier) modulus\<close>. The embedding
  keeps what the script computes: the palette of arc colours, the recurrence, the set of
  visited points and the arrows each call of \<open>plot_path\<close> draws. Python integers are
  \<open>int\<close>; every exception the script can raise is a value \<open>Inl e\<close>.
\<close>

subsection \<open>Errors\<close>

text \<open>The exceptions of Python that the script can raise, with Python's message.\<close>

datatype error =
    ZeroDivisionError
  | ValueError string
  | IndexError string

subsection \<open>Floating point and the collaborators of the script\<close>

text \<open>
  The luminance of a colour is computed with Python floats. The embedding does not fix
  their arithmetic: the conversion of a decimal literal, the product, the sum and the
  comparison \<open><=\<close> of floats are fields of the environment, together with
  matplotlib's \<open>to_rgb\<close> (which raises for a name it cannot resolve) and the source of
  randomness behind \<open>random.choice\<close> (the number drawn at the k-th call).
\<close>

record 'f py_env =
  lit :: "rat \<Rightarrow> 'f"
  fmul :: "'f \<Rightarrow> 'f \<Rightarrow> 'f"
  fadd :: "'f \<Rightarrow> 'f \<Rightarrow> 'f"
  fle :: "'f \<Rightarrow> 'f \<Rightarrow> bool"
  to_rgb :: "string \<Rightarrow> error + ('f \<times> 'f \<times> 'f)"
  rnd :: "nat \<Rightarrow> nat"

subsection \<open>\<open>filter_colors\<close>\<close>

text \<open>Line 31: \<open>0.2126 * rgb[0] + 0.7152 * rgb[1] + 0.0722 * rgb[2]\<close>, left to right.\<close>

definition luminance :: "'f py_env \<Rightarrow> 'f \<times> 'f \<times> 'f \<Rightarrow> 'f" where
  "luminance env rgb =
     (case rgb of (r, g, b) \<Rightarrow>
        fadd env
          (fadd env (fmul env (lit env (2126 / 10000)) r)
                    (fmul env (lit env (7152 / 10000)) g))
          (fmul env (lit env (722 / 10000)) b))"

text \<open>
  The loop of lines 26-35 over \<open>color_list\<close>, with the list \<open>filtered_colors\<close> built
  so far; a colour that \<open>to_rgb\<close> rejects ends the call with its error.
\<close>

fun filter_colors_loop ::
  "'f py_env \<Rightarrow> 'f \<Rightarrow> 'f \<Rightarrow> string list \<Rightarrow> string list \<Rightarrow> error + string list" where
  "filter_colors_loop env low_threshold high_threshold [] filtered_colors =
     Inr filtered_colors"
| "filter_colors_loop env low_threshold high_threshold (color_name # rest) filtered_colors =
     (case to_rgb env color_name of
        Inl e \<Rightarrow> Inl e
      | Inr rgb \<Rightarrow>
          (if fle env low_threshold (luminance env rgb)
              \<and> fle env (luminance env rgb) high_threshold
           then filter_colors_loop env low_threshold high_threshold rest
                  (filtered_colors @ [color_name])
           else filter_colors_loop env low_threshold high_threshold rest filtered_colors))"

definition filter_colors ::
  "'f py_env \<Rightarrow> string list \<Rightarrow> 'f \<Rightarrow> 'f \<Rightarrow> error + string list" where
  "filter_colors env color_list low_threshold high_threshold =
     filter_colors_loop env low_threshold high_threshold color_list []"

text \<open>The default thresholds of the signature, \<open>0.3\<close> and \<open>0.7\<close>.\<close>

definition low_threshold_default :: "'f py_env \<Rightarrow> 'f" where
  "low_threshold_default env = lit env (3 / 10)"

definition high_threshold_default :: "'f py_env \<Rightarrow> 'f" where
  "high_threshold_default env = lit env (7 / 10)"

text \<open>The test of line 34 as a predicate on a colour name that resolves.\<close>

definition in_band :: "'f py_env \<Rightarrow> 'f \<Rightarrow> 'f \<Rightarrow> string \<Rightarrow> bool" where
  "in_band env low high color_name =
     (case to_rgb env color_name of
        Inl e \<Rightarrow> False
      | Inr rgb \<Rightarrow> fle env low (luminance env rgb) \<and> fle env (luminance env rgb) high)"

definition resolves :: "'f py_env \<Rightarrow> string \<Rightarrow> bool" where
  "resolves env color_name = (case to_rgb env color_name of Inl e \<Rightarrow> False | Inr rgb \<Rightarrow> True)"

subsection \<open>\<open>digital_root\<close>\<close>

text \<open>
  Line 51: \<open>(n - 1) % mod + 1 if n != 0 else 0\<close>. Python's \<open>%\<close> takes the sign of the
  divisor, as \<open>mod\<close> on \<open>int\<close> does, and raises for a zero divisor.
\<close>

definition digital_root :: "int \<Rightarrow> int \<Rightarrow> error + int" where
  "digital_root n m =
     (if n \<noteq> 0
      then (if m = 0 then Inl ZeroDivisionError else Inr ((n - 1) mod m + 1))
      else Inr 0)"

subsection \<open>Python's \<open>pow(base, -1, mod)\<close>\<close>

text \<open>
  The builtin behind line 150, after its documentation and CPython's \<open>long_pow\<close>: a
  zero modulus raises; modulus 1 (or -1) returns 0 before any inverse is looked for;
  otherwise the result is the inverse of the base among the residues, moved into
  \<open>(mod, 0]\<close> for a negative modulus, and the call raises when there is none.
\<close>

definition pow_inverse :: "int \<Rightarrow> int \<Rightarrow> error + int" where
  "pow_inverse b m =
     (if m = 0 then Inl (ValueError ''pow() 3rd argument cannot be 0'')
      else if \<bar>m\<bar> = 1 then Inr 0
      else (case find (\<lambda>x. (b * x) mod \<bar>m\<bar> = 1) [1..\<bar>m\<bar> - 1] of
              None \<Rightarrow> Inl (ValueError ''base is not invertible for the given modulus'')
            | Some x \<Rightarrow> Inr (if m < 0 then x - \<bar>m\<bar> else x)))"

subsection \<open>\<open>plot_path\<close>\<close>

text \<open>
  \<open>angles\<close> is a numpy array of length \<open>modulus\<close>: an index in \<open>[-modulus, modulus)\<close>
  reads an element (a negative one counts from the end), any other raises.
\<close>

definition angles_index :: "int \<Rightarrow> int \<Rightarrow> error + unit" where
  "angles_index modulus i =
     (if - modulus \<le> i \<and> i < modulus then Inr ()
      else Inl (IndexError ''index out of bounds''))"

text \<open>Lines 147-151: the next number, forward or through the inverse multiplier.\<close>

definition next_number :: "int \<Rightarrow> int \<Rightarrow> bool \<Rightarrow> int \<Rightarrow> error + int" where
  "next_number multiplier modulus direction current_number =
     (if direction then digital_root (current_number * multiplier) modulus
      else (case pow_inverse multiplier modulus of
              Inl e \<Rightarrow> Inl e
            | Inr inverse_multiplier \<Rightarrow>
                digital_root (current_number * inverse_multiplier) modulus))"

text \<open>
  The loop of lines 146-163, with the iterations that remain. \<open>start\<close> is the
  argument of \<open>plot_modulus_circle\<close>, which the closure reads at line 161; the
  argument \<open>_start\<close> of \<open>plot_path\<close> is the first \<open>current_number\<close>. The result is the
  set \<open>visited\<close> after the call and the arrows drawn, in order; an exception leaves
  no result.
\<close>

fun plot_path_loop ::
  "int \<Rightarrow> int \<Rightarrow> int \<Rightarrow> bool \<Rightarrow> nat \<Rightarrow> int \<Rightarrow> int set
     \<Rightarrow> error + (int set \<times> (int \<times> int) list)" where
  "plot_path_loop start multiplier modulus direction 0 current_number visited =
     Inr (visited, [])"
| "plot_path_loop start multiplier modulus direction (Suc k) current_number visited =
     (case next_number multiplier modulus direction current_number of
        Inl e \<Rightarrow> Inl e
      | Inr nxt \<Rightarrow>
          (case angles_index modulus (current_number - 1) of
             Inl e \<Rightarrow> Inl e
           | Inr u \<Rightarrow>
               (case angles_index modulus (nxt - 1) of
                  Inl e \<Rightarrow> Inl e
                | Inr v \<Rightarrow>
                    (if nxt = start
                     then Inr (insert current_number visited, [(current_number, nxt)])
                     else (case plot_path_loop start multiplier modulus direction k nxt
                                  (insert current_number visited) of
                             Inl e \<Rightarrow> Inl e
                           | Inr (visited', arrows) \<Rightarrow>
                               Inr (visited', (current_number, nxt) # arrows))))))"

text \<open>\<open>range(iterations)\<close> is empty for a negative \<open>iterations\<close>.\<close>

definition plot_path ::
  "int \<Rightarrow> int \<Rightarrow> int \<Rightarrow> int \<Rightarrow> bool \<Rightarrow> int \<Rightarrow> int set
     \<Rightarrow> error + (int set \<times> (int \<times> int) list)" where
  "plot_path start multiplier modulus iterations direction start' visited =
     plot_path_loop start multiplier modulus direction (nat iterations) start' visited"

subsection \<open>\<open>plot_modulus_circle\<close>\<close>

text \<open>The list of lines 107-138.\<close>

definition colors :: "string list" where
  "colors =
    [''aliceblue'', ''antiquewhite'', ''aqua'', ''aquamarine'', ''azure'',
     ''beige'', ''bisque'', ''black'', ''blanchedalmond'', ''blue'',
     ''blueviolet'', ''brown'', ''burlywood'', ''cadetblue'', ''chartreuse'',
     ''chocolate'', ''coral'', ''cornflowerblue'', ''cornsilk'', ''crimson'',
     ''cyan'', ''darkblue'', ''darkcyan'', ''darkgoldenrod'', ''darkgray'',
     ''darkgreen'', ''darkgrey'', ''darkkhaki'', ''darkmagenta'', ''darkolivegreen'',
     ''darkorange'', ''darkorchid'', ''darkred'', ''darksalmon'', ''darkseagreen'',
     ''darkslateblue'', ''darkslategray'', ''darkslategrey'', ''darkturquoise'', ''darkviolet'',
     ''deeppink'', ''deepskyblue'', ''dimgray'', ''dimgrey'', ''dodgerblue'',
     ''firebrick'', ''floralwhite'', ''forestgreen'', ''fuchsia'', ''gainsboro'',
     ''ghostwhite'', ''gold'', ''goldenrod'', ''gray'', ''green'',
     ''greenyellow'', ''grey'', ''honeydew'', ''hotpink'', ''indianred'',
     ''indigo'', ''ivory'', ''khaki'', ''lavender'', ''lavenderblush'',
     ''lawngreen'', ''lemonchiffon'', ''lightblue'', ''lightcoral'', ''lightcyan'',
     ''lightgoldenrodyellow'', ''lightgray'', ''lightgreen'', ''lightgrey'', ''lightpink'',
     ''lightsalmon'', ''lightseagreen'', ''lightskyblue'', ''lightslategray'', ''lightslategrey'',
     ''lightsteelblue'', ''lightyellow'', ''lime'', ''limegreen'', ''linen'',
     ''magenta'', ''maroon'', ''mediumaquamarine'', ''mediumblue'', ''mediumorchid'',
     ''mediumpurple'', ''mediumseagreen'', ''mediumslateblue'', ''mediumspringgreen'', ''mediumturquoise'',
     ''mediumvioletred'', ''midnightblue'', ''mintcream'', ''mistyrose'', ''moccasin'',
     ''navajowhite'', ''navy'', ''oldlace'', ''olive'', ''olivedrab'',
     ''orange'', ''orangered'', ''orchid'', ''palegoldenrod'', ''palegreen'',
     ''paleturquoise'', ''palevioletred'', ''papayawhip'', ''peachpuff'', ''peru'',
     ''pink'', ''plum'', ''powderblue'', ''purple'', ''red'',
     ''rosybrown'', ''royalblue'', ''saddlebrown'', ''salmon'', ''sandybrown'',
     ''seagreen'', ''seashell'', ''sienna'', ''silver'', ''skyblue'',
     ''slateblue'', ''slategray'', ''slategrey'', ''snow'', ''springgreen'',
     ''steelblue'', ''tan'', ''teal'', ''thistle'', ''tomato'',
     ''turquoise'', ''violet'', ''wheat'', ''white'', ''whitesmoke'',
     ''yellow'', ''yellowgreen'']"

text \<open>\<open>list.remove\<close>: the first occurrence goes, a missing element raises.\<close>

definition list_remove :: "'a \<Rightarrow> 'a list \<Rightarrow> error + 'a list" where
  "list_remove x xs =
     (if x \<in> set xs then Inr (remove1 x xs)
      else Inl (ValueError ''list.remove(x): x not in list''))"

text \<open>Lines 140-142: the palette the arcs are coloured from.\<close>

definition arc_palette :: "'f py_env \<Rightarrow> string \<Rightarrow> string \<Rightarrow> error + string list" where
  "arc_palette env background_color text_color =
     (case list_remove background_color colors of
        Inl e \<Rightarrow> Inl e
      | Inr colors1 \<Rightarrow>
          (case list_remove text_color colors1 of
             Inl e \<Rightarrow> Inl e
           | Inr colors2 \<Rightarrow>
               filter_colors env colors2 (low_threshold_default env)
                 (high_threshold_default env)))"

text \<open>\<open>random.choice\<close>, the \<open>k\<close>-th call of the run: an empty sequence raises.\<close>

definition random_choice :: "'f py_env \<Rightarrow> nat \<Rightarrow> string list \<Rightarrow> error + string" where
  "random_choice env k xs =
     (if xs = [] then Inl (IndexError ''Cannot choose from an empty sequence'')
      else Inr (xs ! (rnd env k mod length xs)))"

text \<open>One call of \<open>plot_path\<close>: its argument, its colour and the arrows it drew.\<close>

record path =
  seed :: int
  color :: string
  edges :: "(int \<times> int) list"

text \<open>
  The loop of lines 172-176 over \<open>range(1, modulus + 1)\<close>; the state is \<open>visited\<close>,
  \<open>color_index\<close> (which counts the paths and so the calls of \<open>random.choice\<close>) and the
  paths drawn so far.
\<close>

fun plot_unvisited ::
  "'f py_env \<Rightarrow> string list \<Rightarrow> int \<Rightarrow> int \<Rightarrow> int \<Rightarrow> int \<Rightarrow> bool \<Rightarrow> int list
     \<Rightarrow> int set \<times> nat \<times> path list \<Rightarrow> error + (int set \<times> nat \<times> path list)" where
  "plot_unvisited env palette start multiplier modulus iterations direction [] st = Inr st"
| "plot_unvisited env palette start multiplier modulus iterations direction (point # points)
     (visited, color_index, paths) =
     (if point \<notin> visited \<and> point \<noteq> modulus
      then (case random_choice env color_index palette of
              Inl e \<Rightarrow> Inl e
            | Inr c \<Rightarrow>
                (case plot_path start multiplier modulus iterations direction point visited of
                   Inl e \<Rightarrow> Inl e
                 | Inr (visited', arrows) \<Rightarrow>
                     plot_unvisited env palette start multiplier modulus iterations direction
                       points
                       (visited', color_index + 1,
                        paths @ [\<lparr>seed = point, color = c, edges = arrows\<rparr>])))
      else plot_unvisited env palette start multiplier modulus iterations direction points
             (visited, color_index, paths))"

text \<open>Lines 165-176: the initial path, then the paths of the unvisited points.\<close>

definition plot_paths ::
  "'f py_env \<Rightarrow> string list \<Rightarrow> int \<Rightarrow> int \<Rightarrow> int \<Rightarrow> int \<Rightarrow> bool \<Rightarrow> bool
     \<Rightarrow> error + path list" where
  "plot_paths env palette start multiplier modulus iterations direction recursive =
     (case random_choice env 0 palette of
        Inl e \<Rightarrow> Inl e
      | Inr c \<Rightarrow>
          (case plot_path start multiplier modulus iterations direction start {} of
             Inl e \<Rightarrow> Inl e
           | Inr (visited, arrows) \<Rightarrow>
               (if recursive
                then (case plot_unvisited env palette start multiplier modulus iterations
                             direction [1..modulus]
                             (visited, 1, [\<lparr>seed = start, color = c, edges = arrows\<rparr>]) of
                        Inl e \<Rightarrow> Inl e
                      | Inr (visited', color_index, paths) \<Rightarrow> Inr paths)
                else Inr [\<lparr>seed = start, color = c, edges = arrows\<rparr>])))"

text \<open>
  The whole function. \<open>360 / modulus\<close> (line 79) raises for modulus 0 and
  \<open>np.linspace\<close> (lines 83, 85) for a negative number of samples, both before the
  palette is built. The angles themselves, the layout options
  (\<open>point_order_clockwise\<close>, \<open>offset_angle\<close>) and the drawing calls do not enter the
  paths; the drawing calls are taken to succeed, that is, \<open>background_color\<close> and
  \<open>text_color\<close> are colours matplotlib accepts. The function returns \<open>None\<close>; the
  model returns what was drawn, path by path.
\<close>

definition plot_modulus_circle ::
  "'f py_env \<Rightarrow> int \<Rightarrow> int \<Rightarrow> int \<Rightarrow> int \<Rightarrow> bool \<Rightarrow> string \<Rightarrow> string \<Rightarrow> bool
     \<Rightarrow> error + path list" where
  "plot_modulus_circle env start multiplier modulus iterations direction
     background_color text_color recursive =
     (if modulus = 0 then Inl ZeroDivisionError
      else if modulus < 0
      then Inl (ValueError ''Number of samples must be non-negative'')
      else (case arc_palette env background_color text_color of
              Inl e \<Rightarrow> Inl e
            | Inr palette \<Rightarrow>
                plot_paths env palette start multiplier modulus iterations direction
                  recursive))"

text \<open>The points that are the source of some arrow of some path.\<close>

definition from_points :: "path list \<Rightarrow> int set" where
  "from_points paths = (\<Union>p \<in> set paths. fst ` set (edges p))"

text \<open>All the arrows of a run, and the points of the circle.\<close>

definition arrows_of :: "path list \<Rightarrow> (int \<times> int) set" where
  "arrows_of paths = (\<Union>q \<in> set paths. set (edges q))"

definition on_circle :: "int \<Rightarrow> int \<Rightarrow> bool" where
  "on_circle modulus p = (1 \<le> p \<and> p \<le> modulus)"

subsection \<open>An environment to run the model in\<close>

text \<open>
  Exact rational arithmetic for the floats, the values of the basic CSS colours, mid
  grey for every other name, and the \<open>k\<close>-th draw of the random source equal to \<open>k\<close>.
  It stands for matplotlib and \<open>random\<close> where the model is run on a concrete input;
  no general theorem depends on it.
\<close>

definition css_table :: "(string \<times> (rat \<times> rat \<times> rat)) list" where
  "css_table =
    [(''black'', (0, 0, 0)), (''white'', (1, 1, 1)),
     (''red'', (1, 0, 0)), (''lime'', (0, 1, 0)), (''blue'', (0, 0, 1)),
     (''yellow'', (1, 1, 0)), (''aqua'', (0, 1, 1)), (''cyan'', (0, 1, 1)),
     (''fuchsia'', (1, 0, 1)), (''magenta'', (1, 0, 1)),
     (''silver'', (192 / 255, 192 / 255, 192 / 255)),
     (''gray'', (128 / 255, 128 / 255, 128 / 255)),
     (''grey'', (128 / 255, 128 / 255, 128 / 255)),
     (''maroon'', (128 / 255, 0, 0)), (''olive'', (128 / 255, 128 / 255, 0)),
     (''green'', (0, 128 / 255, 0)), (''purple'', (128 / 255, 0, 128 / 255)),
     (''teal'', (0, 128 / 255, 128 / 255)), (''navy'', (0, 0, 128 / 255)),
     (''orange'', (1, 165 / 255, 0))]"

definition test_env :: "rat py_env" where
  "test_env =
     \<lparr>lit = (\<lambda>q. q), fmul = (*), fadd = (+), fle = (\<le>),
      to_rgb = (\<lambda>name. case map_of css_table name of
                          Some rgb \<Rightarrow> Inr rgb
                        | None \<Rightarrow> Inr (1 / 2, 1 / 2, 1 / 2)),
      rnd = (\<lambda>k. k)\<rparr>"

text \<open>The palette of this environment for a black background and white labels.\<close>

definition test_palette :: "string list" where
  "test_palette =
    [''aliceblue'', ''antiquewhite'', ''aquamarine'', ''azure'', ''beige'',
     ''bisque'', ''blanchedalmond'', ''blueviolet'', ''brown'', ''burlywood'',
     ''cadetblue'', ''chartreuse'', ''chocolate'', ''coral'', ''cornflowerblue'',
     ''cornsilk'', ''crimson'', ''darkblue'', ''darkcyan'', ''darkgoldenrod'',
     ''darkgray'', ''darkgreen'', ''darkgrey'', ''darkkhaki'', ''darkmagenta'',
     ''darkolivegreen'', ''darkorange'', ''darkorchid'', ''darkred'', ''darksalmon'',
     ''darkseagreen'', ''darkslateblue'', ''darkslategray'', ''darkslategrey'', ''darkturquoise'',
     ''darkviolet'', ''deeppink'', ''deepskyblue'', ''dimgray'', ''dimgrey'',
     ''dodgerblue'', ''firebrick'', ''floralwhite'', ''forestgreen'', ''gainsboro'',
     ''ghostwhite'', ''gold'', ''goldenrod'', ''gray'', ''green'',
     ''greenyellow'', ''grey'', ''honeydew'', ''hotpink'', ''indianred'',
     ''indigo'', ''ivory'', ''khaki'', ''lavender'', ''lavenderblush'',
     ''lawngreen'', ''lemonchiffon'', ''lightblue'', ''lightcoral'', ''lightcyan'',
     ''lightgoldenrodyellow'', ''lightgray'', ''lightgreen'', ''lightgrey'', ''lightpink'',
     ''lightsalmon'', ''lightseagreen'', ''lightskyblue'', ''lightslategray'', ''lightslategrey'',
     ''lightsteelblue'', ''lightyellow'', ''limegreen'', ''linen'', ''mediumaquamarine'',
     ''mediumblue'', ''mediumorchid'', ''mediumpurple'', ''mediumseagreen'', ''mediumslateblue'',
     ''mediumspringgreen'', ''mediumturquoise'', ''mediumvioletred'', ''midnightblue'', ''mintcream'',
     ''mistyrose'', ''moccasin'', ''navajowhite'', ''oldlace'', ''olive'',
     ''olivedrab'', ''orange'', ''orangered'', ''orchid'', ''palegoldenrod'',
     ''palegreen'', ''paleturquoise'', ''palevioletred'', ''papayawhip'', ''peachpuff'',
     ''peru'', ''pink'', ''plum'', ''powderblue'', ''rosybrown'',
     ''royalblue'', ''saddlebrown'', ''salmon'', ''sandybrown'', ''seagreen'',
     ''seashell'', ''sienna'', ''skyblue'', ''slateblue'', ''slategray'',
     ''slategrey'', ''snow'', ''springgreen'', ''steelblue'', ''tan'',
     ''teal'', ''thistle'', ''tomato'', ''turquoise'', ''violet'',
     ''wheat'', ''whitesmoke'', ''yellowgreen'']"

section \<open>The digital root\<close>

lemma digital_root_pos:
  assumes "1 \<le> m" and "n \<noteq> 0"
  shows "\<exists>r. digital_root n m = Inr r \<and> 1 \<le> r \<and> r \<le> m \<and> r mod m = n mod m"
proof -
  have "0 \<le> (n - 1) mod m" "(n - 1) mod m < m"
    using assms by simp_all
  then have "1 \<le> (n - 1) mod m + 1" "(n - 1) mod m + 1 \<le> m"
    by linarith+
  moreover have "((n - 1) mod m + 1) mod m = n mod m"
    by (simp add: mod_add_left_eq)
  ultimately show ?thesis
    using assms by (simp add: digital_root_def)
qed

lemma residue_unique:
  fixes a b m :: int
  assumes "1 \<le> a" "a \<le> m" "1 \<le> b" "b \<le> m" "a mod m = b mod m"
  shows "a = b"
proof -
  have "(a - 1) mod m = (b - 1) mod m"
    using assms(5) by (metis mod_diff_left_eq)
  moreover have "(a - 1) mod m = a - 1" "(b - 1) mod m = b - 1"
    using assms by (simp_all add: mod_pos_pos_trivial)
  ultimately show ?thesis by simp
qed

text \<open>
  C4. For every \<open>n \<ge> 1\<close> and \<open>mod \<ge> 1\<close> the digital root lies in \<open>[1, mod]\<close>; the
  digital root of 0 is 0; the digital root of \<open>mod\<close> itself is \<open>mod\<close>, not 0; and
  \<open>digital_root(10, 9) = 1\<close>, \<open>digital_root(18, 9) = 9\<close>, \<open>digital_root(9, 9) = 9\<close>.
\<close>

theorem digital_root_range:
  "(1 \<le> n \<and> 1 \<le> m \<longrightarrow> (\<exists>r. digital_root n m = Inr r \<and> 1 \<le> r \<and> r \<le> m))
   \<and> digital_root 0 m = Inr 0
   \<and> (1 \<le> m \<longrightarrow> digital_root m m = Inr m)
   \<and> digital_root 10 9 = Inr 1 \<and> digital_root 18 9 = Inr 9 \<and> digital_root 9 9 = Inr 9"
proof -
  have range: "1 \<le> r \<and> r \<le> m" if "1 \<le> m" and "r = (n - 1) mod m + 1" for r
    using that pos_mod_sign [of m "n - 1"] pos_mod_bound [of m "n - 1"] by linarith
  have self: "(m - 1) mod m + 1 = m" if "1 \<le> m"
  proof -
    have "(m - 1) mod m = m - 1"
      using that by (intro mod_pos_pos_trivial) simp_all
    then show ?thesis by simp
  qed
  show ?thesis
    using range self by (simp add: digital_root_def)
qed

theorem digital_root_range_witness:
  "(1::int) \<le> 10 \<and> (1::int) \<le> 9 \<and> digital_root 10 9 = Inr 1 \<and> (1::int) \<le> 9
   \<and> digital_root 9 9 = Inr 9"
  using digital_root_range [of 10 9] by (simp add: digital_root_def)

section \<open>The palette of the test environment\<close>

lemma arc_palette_test: "arc_palette test_env ''black'' ''white'' = Inr test_palette"
  by code_simp

lemma test_palette_nonempty: "test_palette \<noteq> []"
  by (simp add: test_palette_def)

section \<open>The modular inverse\<close>

lemma inverse_exists:
  fixes b m :: int
  assumes "2 \<le> m" and "coprime b m"
  shows "\<exists>x. 1 \<le> x \<and> x \<le> m - 1 \<and> (b * x) mod m = 1"
proof -
  obtain u v where uv: "u * b + v * m = 1"
    using bezout_int [of b m] assms(2) by (auto simp: coprime_iff_gcd_eq_1)
  let ?x = "u mod m"
  have "(b * ?x) mod m = (b * u) mod m"
    by (simp add: mod_mult_right_eq)
  also have "b * u = 1 - v * m"
    using uv by (simp add: algebra_simps)
  also have "(1 - v * m) mod m = 1 mod m"
    by (metis mod_diff_right_eq mod_mult_self2_is_0 diff_zero)
  also have "1 mod m = 1"
    using assms(1) by simp
  finally have inv: "(b * ?x) mod m = 1" .
  have "0 \<le> ?x" "?x < m"
    using assms(1) by simp_all
  moreover have "?x \<noteq> 0"
  proof
    assume "?x = 0"
    with inv show False by simp
  qed
  ultimately show ?thesis
    using inv by (intro exI [of _ ?x]) simp
qed

lemma inverse_coprime:
  fixes b m x :: int
  assumes "(b * x) mod m = 1"
  shows "coprime b m"
proof -
  have "b * x = m * ((b * x) div m) + 1"
    using assms by (metis mult_div_mod_eq)
  then have "b * x - m * ((b * x) div m) = 1"
    by simp
  then show ?thesis
    by (metis coprime_iff_gcd_eq_1 dvd_diff dvd_triv_left gcd_dvd1 gcd_dvd2 dvd_mult2 
        is_unit_gcd)
qed

lemma pow_inverse_coprime:
  assumes "2 \<le> m" and "coprime b m"
  shows "\<exists>x. pow_inverse b m = Inr x \<and> 1 \<le> x \<and> x < m \<and> (b * x) mod m = 1"
proof -
  obtain x0 where "1 \<le> x0" "x0 \<le> m - 1" "(b * x0) mod m = 1"
    using inverse_exists [OF assms] by blast
  then have "find (\<lambda>x. (b * x) mod m = 1) [1..m - 1] \<noteq> None"
    by (auto simp: find_None_iff)
  then obtain x where f: "find (\<lambda>x. (b * x) mod m = 1) [1..m - 1] = Some x"
    by blast
  then have "x \<in> set [1..m - 1]" "(b * x) mod m = 1"
    by (auto simp: find_Some_iff)
  with f assms(1) show ?thesis
    by (simp add: pow_inverse_def)
qed

lemma pow_inverse_not_coprime:
  assumes "1 \<le> m" and "\<not> coprime b m"
  shows "pow_inverse b m = Inl (ValueError ''base is not invertible for the given modulus'')"
proof -
  have "m \<noteq> 1"
    using assms(2) by auto
  moreover have "find (\<lambda>x. (b * x) mod m = 1) [1..m - 1] = None"
    using assms(2) inverse_coprime [of b _ m] by (auto simp: find_None_iff)
  ultimately show ?thesis
    using assms(1) by (simp add: pow_inverse_def)
qed

lemma pow_inverse_range:
  assumes "2 \<le> m" and "pow_inverse b m = Inr x"
  shows "1 \<le> x \<and> x < m \<and> (b * x) mod m = 1"
proof -
  from assms have f: "find (\<lambda>x. (b * x) mod m = 1) [1..m - 1] = Some x"
    by (auto simp: pow_inverse_def split: option.splits)
  then have "x \<in> set [1..m - 1]" "(b * x) mod m = 1"
    by (auto simp: find_Some_iff)
  then show ?thesis by simp
qed

section \<open>Forward and backward steps\<close>

text \<open>
  C5, as amended. For a modulus of at least 2, every point \<open>p\<close> in \<open>[1, modulus]\<close> and
  every multiplier coprime to the modulus, the forward step from \<open>p\<close> followed by the
  backward step returns \<open>p\<close>. (For modulus 1 Python's \<open>pow\<close> returns 0 as the inverse
  and the backward step gives 0: the counterexample below.)
\<close>

theorem forward_then_backward:
  assumes "2 \<le> modulus" and "1 \<le> p" and "p \<le> modulus"
    and "gcd multiplier modulus = 1"
  shows "\<exists>q. next_number multiplier modulus True p = Inr q
           \<and> next_number multiplier modulus False q = Inr p"
proof -
  have cop: "coprime multiplier modulus"
    using assms(4) by (simp add: coprime_iff_gcd_eq_1)
  have m1: "1 \<le> modulus"
    using assms(1) by simp
  have "multiplier \<noteq> 0"
    using assms(1,4) by auto
  then have "p * multiplier \<noteq> 0"
    using assms(2) by simp
  then obtain q where q: "digital_root (p * multiplier) modulus = Inr q"
    "1 \<le> q" "q \<le> modulus" "q mod modulus = (p * multiplier) mod modulus"
    using digital_root_pos [OF m1] by blast
  obtain x where x: "pow_inverse multiplier modulus = Inr x" "1 \<le> x"
    "(multiplier * x) mod modulus = 1"
    using pow_inverse_coprime [OF assms(1) cop] by blast
  have "q * x \<noteq> 0"
    using q(2) x(2) by simp
  then obtain r where r: "digital_root (q * x) modulus = Inr r"
    "1 \<le> r" "r \<le> modulus" "r mod modulus = (q * x) mod modulus"
    using digital_root_pos [OF m1] by blast
  have "(q * x) mod modulus = ((q mod modulus) * x) mod modulus"
    by (simp add: mod_mult_left_eq)
  also have "\<dots> = (p * multiplier * x) mod modulus"
    by (simp add: q(4) mod_mult_left_eq)
  also have "\<dots> = (p * ((multiplier * x) mod modulus)) mod modulus"
    by (simp add: mod_mult_right_eq mult.assoc)
  also have "\<dots> = p mod modulus"
    by (simp add: x(3))
  finally have "r mod modulus = p mod modulus"
    using r(4) by simp
  then have "r = p"
    using residue_unique [of r modulus p] r(2,3) assms(2,3) by simp
  then show ?thesis
    using q(1) x(1) r(1) by (simp add: next_number_def)
qed

theorem forward_then_backward_witness:
  "(2::int) \<le> 7 \<and> (1::int) \<le> 3 \<and> (3::int) \<le> 7 \<and> gcd (2::int) 7 = 1
   \<and> next_number 2 7 True 3 = Inr 6 \<and> next_number 2 7 False 6 = Inr 3"
proof -
  have g: "gcd (2::int) 7 = 1" by code_simp
  have f: "next_number 2 7 True 3 = Inr 6"
    by (simp add: next_number_def digital_root_def)
  from forward_then_backward [of 7 3 2] g f show ?thesis by simp
qed

theorem forward_then_backward_counterexample:
  "(1::int) \<le> 1 \<and> gcd (1::int) 1 = 1 \<and> next_number 1 1 True 1 = Inr 1
   \<and> next_number 1 1 False 1 = Inr 0 \<and> (0::int) \<noteq> 1"
  by (simp add: next_number_def digital_root_def pow_inverse_def)

lemma plot_path_loop_not_invertible:
  assumes "0 < modulus" and "gcd multiplier modulus \<noteq> 1"
  shows "plot_path_loop start multiplier modulus False (Suc k) current visited =
           Inl (ValueError ''base is not invertible for the given modulus'')"
proof -
  have "\<not> coprime multiplier modulus"
    using assms(2) by (simp add: coprime_iff_gcd_eq_1)
  then have "pow_inverse multiplier modulus =
      Inl (ValueError ''base is not invertible for the given modulus'')"
    using assms(1) by (intro pow_inverse_not_coprime) simp_all
  then show ?thesis
    by (simp add: next_number_def)
qed

text \<open>
  C6. In the backward direction, with a positive modulus and a multiplier that is not
  coprime to it, the first step of a path raises the \<open>ValueError\<close> of \<open>pow\<close>; nothing
  catches it, so \<open>plot_path\<close> and, once the palette is built and not empty,
  \<open>plot_modulus_circle\<close> end with that error.
\<close>

theorem backward_not_invertible:
  assumes "0 < modulus" and "gcd multiplier modulus \<noteq> 1" and "0 < iterations"
  shows "plot_path start multiplier modulus iterations False start' visited =
           Inl (ValueError ''base is not invertible for the given modulus'')
         \<and> (\<forall>palette. arc_palette env background_color text_color = Inr palette
                \<and> palette \<noteq> [] \<longrightarrow>
              plot_modulus_circle env start multiplier modulus iterations False
                  background_color text_color recursive =
                Inl (ValueError ''base is not invertible for the given modulus''))"
proof -
  obtain k where k: "nat iterations = Suc k"
    using assms(3) by (cases "nat iterations") simp_all
  have path: "plot_path start multiplier modulus iterations False s visited =
      Inl (ValueError ''base is not invertible for the given modulus'')" for s visited
    unfolding plot_path_def k
    by (rule plot_path_loop_not_invertible [OF assms(1,2)])
  show ?thesis
    using path assms(1)
    by (simp add: plot_modulus_circle_def plot_paths_def random_choice_def)
qed

theorem backward_not_invertible_witness:
  "(0::int) < 4 \<and> gcd (2::int) 4 \<noteq> 1 \<and> (0::int) < 4
   \<and> plot_path 1 2 4 4 False 1 {} =
       Inl (ValueError ''base is not invertible for the given modulus'')
   \<and> arc_palette test_env ''black'' ''white'' = Inr test_palette \<and> test_palette \<noteq> []
   \<and> plot_modulus_circle test_env 1 2 4 4 False ''black'' ''white'' True =
       Inl (ValueError ''base is not invertible for the given modulus'')"
proof -
  have g: "gcd (2::int) 4 \<noteq> 1" by code_simp
  from backward_not_invertible [of 4 2 4 1 1 "{}" test_env "''black''" "''white''" True]
    g arc_palette_test test_palette_nonempty
  show ?thesis by simp
qed

section \<open>The loop of \<open>plot_path\<close>\<close>

text \<open>What one successful iteration of the loop does, as a case rule.\<close>

lemma plot_path_loop_SucE:
  assumes "plot_path_loop start multiplier modulus direction (Suc k) current visited =
             Inr (visited', arrows)"
  obtains nxt where "next_number multiplier modulus direction current = Inr nxt"
      and "nxt = start" and "visited' = insert current visited"
      and "arrows = [(current, nxt)]"
  | nxt rest where "next_number multiplier modulus direction current = Inr nxt"
      and "nxt \<noteq> start"
      and "plot_path_loop start multiplier modulus direction k nxt (insert current visited) =
             Inr (visited', rest)"
      and "arrows = (current, nxt) # rest"
proof -
  from assms obtain nxt where
    nxt: "next_number multiplier modulus direction current = Inr nxt"
    by (cases "next_number multiplier modulus direction current") simp_all
  from assms nxt have body:
    "(if nxt = start then Inr (insert current visited, [(current, nxt)])
      else (case plot_path_loop start multiplier modulus direction k nxt
                   (insert current visited) of
              Inl e \<Rightarrow> Inl e
            | Inr (visited', arrows) \<Rightarrow> Inr (visited', (current, nxt) # arrows))) =
     Inr (visited', arrows)"
    by (cases "angles_index modulus (current - 1)";
        cases "angles_index modulus (nxt - 1)") simp_all
  show thesis
  proof (cases "nxt = start")
    case True
    with body nxt that(1) show thesis by simp
  next
    case False
    show thesis
    proof (cases "plot_path_loop start multiplier modulus direction k nxt
                    (insert current visited)")
      case (Inl e)
      with body False show thesis by simp
    next
      case (Inr r)
      obtain v rest where r: "r = (v, rest)" by (cases r)
      with body False Inr nxt that(2) show thesis by simp
    qed
  qed
qed


lemma plot_path_loop_visited:
  "plot_path_loop start multiplier modulus direction k current visited = Inr (visited', arrows)
   \<Longrightarrow> visited' = visited \<union> fst ` set arrows"
proof (induction k arbitrary: current visited visited' arrows)
  case 0
  then show ?case by simp
next
  case (Suc k)
  from Suc.prems show ?case
  proof (cases rule: plot_path_loop_SucE)
    case (1 nxt)
    then show ?thesis by simp
  next
    case (2 nxt rest)
    from Suc.IH [OF 2(3)] 2(4) show ?thesis by auto
  qed
qed

lemma plot_path_loop_first:
  assumes "plot_path_loop start multiplier modulus direction (Suc k) current visited =
     Inr (visited', arrows)"
  shows "current \<in> fst ` set arrows"
  using assms by (cases rule: plot_path_loop_SucE) simp_all

lemma plot_path_loop_stop:
  "plot_path_loop start multiplier modulus direction k current visited = Inr (visited', arrows)
   \<Longrightarrow> length arrows \<le> k
       \<and> (length arrows < k \<longrightarrow> arrows \<noteq> [] \<and> snd (last arrows) = start)
       \<and> start \<notin> snd ` set (butlast arrows)"
proof (induction k arbitrary: current visited visited' arrows)
  case 0
  then show ?case by simp
next
  case (Suc k)
  from Suc.prems show ?case
  proof (cases rule: plot_path_loop_SucE)
    case (1 nxt)
    then show ?thesis by simp
  next
    case (2 nxt rest)
    from Suc.IH [OF 2(3)] 2(2,4) show ?thesis by auto
  qed
qed

lemma next_number_on_circle:
  assumes "on_circle modulus current"
    and "(direction \<and> multiplier \<noteq> 0) \<or> (\<not> direction \<and> 2 \<le> modulus)"
    and "next_number multiplier modulus direction current = Inr nxt"
  shows "on_circle modulus nxt"
proof -
  have m1: "1 \<le> modulus" and c1: "1 \<le> current"
    using assms(1) by (simp_all add: on_circle_def)
  show ?thesis
  proof (cases direction)
    case True
    then have "current * multiplier \<noteq> 0"
      using assms(2) c1 by simp
    then show ?thesis
      using digital_root_pos [OF m1, of "current * multiplier"] assms(3) True
      by (auto simp: next_number_def on_circle_def)
  next
    case False
    then have m2: "2 \<le> modulus"
      using assms(2) by simp
    from False assms(3) obtain x where x: "pow_inverse multiplier modulus = Inr x"
      and d: "digital_root (current * x) modulus = Inr nxt"
      by (auto simp: next_number_def split: sum.splits)
    have "1 \<le> x"
      using pow_inverse_range [OF m2 x] by simp
    then have "current * x \<noteq> 0"
      using c1 by simp
    then show ?thesis
      using digital_root_pos [OF m1, of "current * x"] d
      by (auto simp: on_circle_def)
  qed
qed


lemma plot_path_loop_on_circle:
  assumes "(direction \<and> multiplier \<noteq> 0) \<or> (\<not> direction \<and> 2 \<le> modulus)"
  shows "on_circle modulus current \<Longrightarrow>
    plot_path_loop start multiplier modulus direction k current visited = Inr (visited', arrows)
    \<Longrightarrow> \<forall>e \<in> set arrows. on_circle modulus (fst e) \<and> on_circle modulus (snd e)"
proof (induction k arbitrary: current visited visited' arrows)
  case 0
  then show ?case by simp
next
  case (Suc k)
  from Suc.prems(2) show ?case
  proof (cases rule: plot_path_loop_SucE)
    case (1 nxt)
    from next_number_on_circle [OF Suc.prems(1) assms 1(1)] Suc.prems(1) 1(4)
    show ?thesis by simp
  next
    case (2 nxt rest)
    have on: "on_circle modulus nxt"
      using next_number_on_circle [OF Suc.prems(1) assms 2(1)] .
    from Suc.IH [OF on 2(3)] Suc.prems(1) on 2(4) show ?thesis by simp
  qed
qed

lemma from_points_snoc:
  "from_points (paths @ [p]) = from_points paths \<union> fst ` set (edges p)"
  by (auto simp: from_points_def)


lemma plot_unvisited_ConsE:
  assumes "plot_unvisited env palette start multiplier modulus iterations direction
             (point # points) (visited, color_index, paths) = Inr result"
  obtains "point \<in> visited \<or> point = modulus"
      and "plot_unvisited env palette start multiplier modulus iterations direction points
             (visited, color_index, paths) = Inr result"
  | c v arrows where "point \<notin> visited" and "point \<noteq> modulus"
      and "plot_path start multiplier modulus iterations direction point visited =
             Inr (v, arrows)"
      and "plot_unvisited env palette start multiplier modulus iterations direction points
             (v, color_index + 1, paths @ [\<lparr>seed = point, color = c, edges = arrows\<rparr>]) =
             Inr result"
proof (cases "point \<notin> visited \<and> point \<noteq> modulus")
  case False
  with assms that(1) show thesis by simp
next
  case True
  with assms obtain c where c: "random_choice env color_index palette = Inr c"
    by (cases "random_choice env color_index palette") simp_all
  with assms True obtain r where
    r: "plot_path start multiplier modulus iterations direction point visited = Inr r"
    by (cases "plot_path start multiplier modulus iterations direction point visited")
      simp_all
  obtain v arrows where "r = (v, arrows)" by (cases r)
  with assms True c r that(2) show thesis by simp
qed

section \<open>The paths of a run\<close>

lemma plot_unvisited_covers:
  assumes "0 < iterations"
  shows "plot_unvisited env palette start multiplier modulus iterations direction points
           (visited, color_index, paths) = Inr (visited', color_index', paths')
    \<Longrightarrow> visited = from_points paths
    \<Longrightarrow> (\<forall>p \<in> set points. p \<noteq> modulus \<longrightarrow> p \<in> from_points paths')
        \<and> from_points paths \<subseteq> from_points paths'
        \<and> (\<exists>extra. paths' = paths @ extra \<and> (\<forall>q \<in> set extra. seed q \<noteq> modulus))"
proof (induction points arbitrary: visited color_index paths)
  case Nil
  then show ?case by simp
next
  case (Cons point points)
  from Cons.prems(1) show ?case
  proof (cases rule: plot_unvisited_ConsE)
    case 1
    from Cons.IH [OF 1(2) Cons.prems(2)] 1(1) Cons.prems(2) show ?thesis
      by auto
  next
    case (2 c v arrows)
    let ?p = "\<lparr>seed = point, color = c, edges = arrows\<rparr>"
    obtain k where k: "nat iterations = Suc k"
      using assms by (cases "nat iterations") simp_all
    have v: "v = visited \<union> fst ` set arrows"
      using 2(3) unfolding plot_path_def by (rule plot_path_loop_visited)
    have first: "point \<in> fst ` set arrows"
      using 2(3) unfolding plot_path_def k by (rule plot_path_loop_first)
    have inv: "v = from_points (paths @ [?p])"
      using v Cons.prems(2) by (simp add: from_points_snoc)
    from Cons.IH [OF 2(4) inv] obtain extra where
      cov: "\<forall>p \<in> set points. p \<noteq> modulus \<longrightarrow> p \<in> from_points paths'"
      and sub: "from_points (paths @ [?p]) \<subseteq> from_points paths'"
      and ex: "paths' = (paths @ [?p]) @ extra" "\<forall>q \<in> set extra. seed q \<noteq> modulus"
      by blast
    have here: "point \<in> from_points paths'"
      using sub first by (auto simp: from_points_snoc)
    have mono: "from_points paths \<subseteq> from_points paths'"
      using sub by (auto simp: from_points_snoc)
    have "paths' = paths @ (?p # extra)" "\<forall>q \<in> set (?p # extra). seed q \<noteq> modulus"
      using ex 2(2) by simp_all
    then have "\<exists>extra. paths' = paths @ extra \<and> (\<forall>q \<in> set extra. seed q \<noteq> modulus)"
      by blast
    with cov here mono show ?thesis
      by simp
  qed
qed

lemma plot_unvisited_on_circle:
  assumes "(direction \<and> multiplier \<noteq> 0) \<or> (\<not> direction \<and> 2 \<le> modulus)"
  shows "plot_unvisited env palette start multiplier modulus iterations direction points
           (visited, color_index, paths) = Inr (visited', color_index', paths')
    \<Longrightarrow> \<forall>p \<in> set points. on_circle modulus p
    \<Longrightarrow> \<forall>q \<in> set paths. \<forall>e \<in> set (edges q). on_circle modulus (fst e) \<and> on_circle modulus (snd e)
    \<Longrightarrow> \<forall>q \<in> set paths'. \<forall>e \<in> set (edges q). on_circle modulus (fst e) \<and> on_circle modulus (snd e)"
proof (induction points arbitrary: visited color_index paths)
  case Nil
  then show ?case by simp
next
  case (Cons point points)
  have rest: "\<forall>p \<in> set points. on_circle modulus p"
    using Cons.prems(2) by simp
  from Cons.prems(1) show ?case
  proof (cases rule: plot_unvisited_ConsE)
    case 1
    from Cons.IH [OF 1(2) rest Cons.prems(3)] show ?thesis .
  next
    case (2 c v arrows)
    have "on_circle modulus point"
      using Cons.prems(2) by simp
    then have "\<forall>e \<in> set arrows. on_circle modulus (fst e) \<and> on_circle modulus (snd e)"
      using plot_path_loop_on_circle [OF assms] 2(3) by (simp add: plot_path_def)
    with Cons.prems(3) have
      "\<forall>q \<in> set (paths @ [\<lparr>seed = point, color = c, edges = arrows\<rparr>]).
         \<forall>e \<in> set (edges q). on_circle modulus (fst e) \<and> on_circle modulus (snd e)"
      by auto
    from Cons.IH [OF 2(4) rest this] show ?thesis .
  qed
qed

lemma plot_modulus_circle_InrE:
  assumes "plot_modulus_circle env start multiplier modulus iterations direction
             background_color text_color recursive = Inr paths"
  obtains palette where "0 < modulus"
    and "arc_palette env background_color text_color = Inr palette"
    and "plot_paths env palette start multiplier modulus iterations direction recursive =
           Inr paths"
proof -
  from assms have m: "0 < modulus"
    by (cases "modulus = 0"; cases "modulus < 0") (simp_all add: plot_modulus_circle_def)
  with assms obtain palette where
    "arc_palette env background_color text_color = Inr palette"
    by (cases "arc_palette env background_color text_color")
      (simp_all add: plot_modulus_circle_def)
  with assms m that show thesis
    by (simp add: plot_modulus_circle_def)
qed

lemma plot_paths_InrE:
  assumes "plot_paths env palette start multiplier modulus iterations direction recursive =
             Inr paths"
  obtains c visited arrows where
      "plot_path start multiplier modulus iterations direction start {} = Inr (visited, arrows)"
    and "\<not> recursive" and "paths = [\<lparr>seed = start, color = c, edges = arrows\<rparr>]"
  | c visited arrows visited' color_index where
      "plot_path start multiplier modulus iterations direction start {} = Inr (visited, arrows)"
    and "recursive"
    and "plot_unvisited env palette start multiplier modulus iterations direction [1..modulus]
           (visited, 1, [\<lparr>seed = start, color = c, edges = arrows\<rparr>]) =
           Inr (visited', color_index, paths)"
proof -
  from assms obtain c where c: "random_choice env 0 palette = Inr c"
    by (cases "random_choice env 0 palette") (simp_all add: plot_paths_def)
  with assms obtain r where
    r: "plot_path start multiplier modulus iterations direction start {} = Inr r"
    by (cases "plot_path start multiplier modulus iterations direction start {}")
      (simp_all add: plot_paths_def)
  obtain visited arrows where va: "r = (visited, arrows)" by (cases r)
  show thesis
  proof (cases recursive)
    case False
    with assms c r va have "paths = [\<lparr>seed = start, color = c, edges = arrows\<rparr>]"
      by (simp add: plot_paths_def)
    with r va False that(1) show thesis
      by simp
  next
    case True
    with assms c r va obtain s where
      s: "plot_unvisited env palette start multiplier modulus iterations direction [1..modulus]
           (visited, 1, [\<lparr>seed = start, color = c, edges = arrows\<rparr>]) = Inr s"
      by (cases "plot_unvisited env palette start multiplier modulus iterations direction
            [1..modulus] (visited, 1, [\<lparr>seed = start, color = c, edges = arrows\<rparr>])")
        (simp_all add: plot_paths_def)
    obtain visited' color_index paths' where "s = (visited', color_index, paths')"
      by (cases s)
    with assms c r va True s that(2) show thesis
      by (simp add: plot_paths_def)
  qed
qed

section \<open>Runs on concrete inputs\<close>

lemma plot_paths_test_7:
  "plot_paths test_env test_palette 1 2 7 7 True True =
     Inr [\<lparr>seed = 1, color = ''aliceblue'', edges = [(1, 2), (2, 4), (4, 1)]\<rparr>,
          \<lparr>seed = 3, color = ''antiquewhite'',
             edges = [(3, 6), (6, 5), (5, 3), (3, 6), (6, 5), (5, 3), (3, 6)]\<rparr>]"
  by code_simp

lemma plot_paths_test_9:
  "plot_paths test_env test_palette 9 3 9 9 True True =
     Inr [\<lparr>seed = 9, color = ''aliceblue'', edges = [(9, 9)]\<rparr>,
          \<lparr>seed = 1, color = ''antiquewhite'', edges = [(1, 3), (3, 9)]\<rparr>,
          \<lparr>seed = 2, color = ''aquamarine'', edges = [(2, 6), (6, 9)]\<rparr>,
          \<lparr>seed = 4, color = ''azure'', edges = [(4, 3), (3, 9)]\<rparr>,
          \<lparr>seed = 5, color = ''beige'', edges = [(5, 6), (6, 9)]\<rparr>,
          \<lparr>seed = 7, color = ''bisque'', edges = [(7, 3), (3, 9)]\<rparr>,
          \<lparr>seed = 8, color = ''blanchedalmond'', edges = [(8, 6), (6, 9)]\<rparr>]"
  by code_simp

lemma plot_paths_test_0:
  "plot_paths test_env test_palette 1 2 3 0 True True =
     Inr [\<lparr>seed = 1, color = ''aliceblue'', edges = []\<rparr>,
          \<lparr>seed = 1, color = ''antiquewhite'', edges = []\<rparr>,
          \<lparr>seed = 2, color = ''aquamarine'', edges = []\<rparr>]"
  by code_simp

lemma plot_paths_test_1:
  "plot_paths test_env test_palette 1 1 1 1 False True =
     Inr [\<lparr>seed = 1, color = ''aliceblue'', edges = [(1, 0)]\<rparr>]"
  by code_simp

lemma plot_paths_test_mult0:
  "plot_paths test_env test_palette 1 0 9 2 True False =
     Inr [\<lparr>seed = 1, color = ''aliceblue'', edges = [(1, 0), (0, 0)]\<rparr>]"
  by code_simp

lemma plot_modulus_circle_test:
  "0 < modulus \<Longrightarrow>
   plot_modulus_circle test_env start multiplier modulus iterations direction
     ''black'' ''white'' recursive =
   plot_paths test_env test_palette start multiplier modulus iterations direction recursive"
  by (simp add: plot_modulus_circle_def arc_palette_test)

text \<open>
  C3. \<open>plot_path\<close> from 1 with multiplier 7, modulus 100, 100 iterations, forward
  (the first path of the script's own call): every arrow goes from a point to the
  digital root of 7 times that point modulo 100, and the path stops at length 100 or on
  the first return to point 1; here it stops on the return, after four arrows.
\<close>

theorem main_path_example:
  "\<exists>visited arrows.
     plot_path 1 7 100 100 True 1 {} = Inr (visited, arrows)
     \<and> arrows = [(1, 7), (7, 49), (49, 43), (43, 1)]
     \<and> list_all (\<lambda>e. digital_root (fst e * 7) 100 = Inr (snd e)) arrows
     \<and> (length arrows = 100
          \<or> (snd (last arrows) = 1 \<and> list_all (\<lambda>e. snd e \<noteq> 1) (butlast arrows)))"
proof -
  have "plot_path 1 7 100 100 True 1 {} =
      Inr ({1, 7, 49, 43}, [(1, 7), (7, 49), (49, 43), (43, 1)])"
    by code_simp
  then show ?thesis
    by (simp add: digital_root_def)
qed

text \<open>
  C1. The claim: every path, also one seeded from an unvisited point \<open>p\<close>, stops early
  exactly when a step returns to its own origin \<open>p\<close>. The code compares with \<open>start\<close>,
  the argument of \<open>plot_modulus_circle\<close>, not with \<open>_start\<close> (line 161; see
  \<open>plot_path_loop_stop\<close>). With start 1, multiplier 2, modulus 7 and 7 iterations the path
  seeded from 3 returns to 3 at its third arrow and goes on to the seventh; with
  start 9, multiplier 3, modulus 9 the path seeded from 1 stops at its second arrow, on
  point 9.
\<close>

theorem recursive_path_ignores_own_seed:
  "plot_modulus_circle test_env 1 2 7 7 True ''black'' ''white'' True =
     Inr [\<lparr>seed = 1, color = ''aliceblue'', edges = [(1, 2), (2, 4), (4, 1)]\<rparr>,
          \<lparr>seed = 3, color = ''antiquewhite'',
             edges = [(3, 6), (6, 5), (5, 3), (3, 6), (6, 5), (5, 3), (3, 6)]\<rparr>]
   \<and> plot_modulus_circle test_env 9 3 9 9 True ''black'' ''white'' True =
     Inr [\<lparr>seed = 9, color = ''aliceblue'', edges = [(9, 9)]\<rparr>,
          \<lparr>seed = 1, color = ''antiquewhite'', edges = [(1, 3), (3, 9)]\<rparr>,
          \<lparr>seed = 2, color = ''aquamarine'', edges = [(2, 6), (6, 9)]\<rparr>,
          \<lparr>seed = 4, color = ''azure'', edges = [(4, 3), (3, 9)]\<rparr>,
          \<lparr>seed = 5, color = ''beige'', edges = [(5, 6), (6, 9)]\<rparr>,
          \<lparr>seed = 7, color = ''bisque'', edges = [(7, 3), (3, 9)]\<rparr>,
          \<lparr>seed = 8, color = ''blanchedalmond'', edges = [(8, 6), (6, 9)]\<rparr>]"
  by (simp add: plot_modulus_circle_test plot_paths_test_7 plot_paths_test_9)

section \<open>Coverage and range of the points\<close>

text \<open>
  C2, as amended. After a run of \<open>plot_modulus_circle\<close> with \<open>recursive\<close> true and at
  least one iteration that ends without an exception, every point of
  \<open>[1, modulus - 1]\<close> is the source of an arrow, and no path after the first is seeded
  from the point \<open>modulus\<close>. (With 0 iterations no arrow is drawn at all: the
  counterexample below.)
\<close>

theorem recursive_coverage:
  assumes "plot_modulus_circle env start multiplier modulus iterations direction
             background_color text_color True = Inr paths"
    and "0 < iterations"
  shows "{1..modulus - 1} \<subseteq> from_points paths \<and> modulus \<notin> seed ` set (tl paths)"
proof -
  from assms(1) obtain palette where
    run: "plot_paths env palette start multiplier modulus iterations direction True = Inr paths"
    by (rule plot_modulus_circle_InrE)
  from run show ?thesis
  proof (cases rule: plot_paths_InrE)
    case (1 c visited arrows)
    then show ?thesis by simp
  next
    case (2 c visited arrows visited' color_index)
    let ?p = "\<lparr>seed = start, color = c, edges = arrows\<rparr>"
    have "visited = {} \<union> fst ` set arrows"
      using 2(1) unfolding plot_path_def by (rule plot_path_loop_visited)
    then have inv: "visited = from_points [?p]"
      by (simp add: from_points_def)
    from plot_unvisited_covers [OF assms(2) 2(3) inv] obtain extra where
      cov: "\<forall>p \<in> set [1..modulus]. p \<noteq> modulus \<longrightarrow> p \<in> from_points paths"
      and ex: "paths = [?p] @ extra" "\<forall>q \<in> set extra. seed q \<noteq> modulus"
      by blast
    from cov have "{1..modulus - 1} \<subseteq> from_points paths"
      by auto
    moreover from ex have "modulus \<notin> seed ` set (tl paths)"
      by auto
    ultimately show ?thesis by simp
  qed
qed

theorem recursive_coverage_witness:
  "plot_modulus_circle test_env 1 2 7 7 True ''black'' ''white'' True =
     Inr [\<lparr>seed = 1, color = ''aliceblue'', edges = [(1, 2), (2, 4), (4, 1)]\<rparr>,
          \<lparr>seed = 3, color = ''antiquewhite'',
             edges = [(3, 6), (6, 5), (5, 3), (3, 6), (6, 5), (5, 3), (3, 6)]\<rparr>]
   \<and> (0::int) < 7
   \<and> {1..7 - 1} \<subseteq>
       from_points
         [\<lparr>seed = 1, color = ''aliceblue'', edges = [(1, 2), (2, 4), (4, 1)]\<rparr>,
          \<lparr>seed = 3, color = ''antiquewhite'',
             edges = [(3, 6), (6, 5), (5, 3), (3, 6), (6, 5), (5, 3), (3, 6)]\<rparr>]
   \<and> (7::int) \<notin> seed ` set (tl
         [\<lparr>seed = 1, color = ''aliceblue'', edges = [(1, 2), (2, 4), (4, 1)]\<rparr>,
          \<lparr>seed = 3, color = ''antiquewhite'',
             edges = [(3, 6), (6, 5), (5, 3), (3, 6), (6, 5), (5, 3), (3, 6)]\<rparr>])"
proof -
  have run: "plot_modulus_circle test_env 1 2 7 7 True ''black'' ''white'' True =
     Inr [\<lparr>seed = 1, color = ''aliceblue'', edges = [(1, 2), (2, 4), (4, 1)]\<rparr>,
          \<lparr>seed = 3, color = ''antiquewhite'',
             edges = [(3, 6), (6, 5), (5, 3), (3, 6), (6, 5), (5, 3), (3, 6)]\<rparr>]"
    by (simp add: plot_modulus_circle_test plot_paths_test_7)
  have pos: "(0::int) < 7" by simp
  from recursive_coverage [OF run pos] run show ?thesis by simp
qed

theorem recursive_coverage_counterexample:
  "plot_modulus_circle test_env 1 2 3 0 True ''black'' ''white'' True =
     Inr [\<lparr>seed = 1, color = ''aliceblue'', edges = []\<rparr>,
          \<lparr>seed = 1, color = ''antiquewhite'', edges = []\<rparr>,
          \<lparr>seed = 2, color = ''aquamarine'', edges = []\<rparr>]
   \<and> (1::int) \<in> {1..3 - 1}
   \<and> 1 \<notin> from_points
         [\<lparr>seed = 1, color = ''aliceblue'', edges = []\<rparr>,
          \<lparr>seed = 1, color = ''antiquewhite'', edges = []\<rparr>,
          \<lparr>seed = 2, color = ''aquamarine'', edges = []\<rparr>]"
  by (simp add: plot_modulus_circle_test plot_paths_test_0 from_points_def)

text \<open>
  C7, as amended. When \<open>start\<close> lies in \<open>[1, modulus]\<close> and the direction is forward with
  a multiplier other than 0, or backward with a modulus of at least 2, both ends of every
  arrow of a run lie in \<open>[1, modulus]\<close>; and for a positive modulus the digital root is 0
  for the input 0 only. (Backward with modulus 1, and forward with multiplier 0, the next
  point is 0: the counterexample below.)
\<close>

theorem points_on_circle:
  assumes "plot_modulus_circle env start multiplier modulus iterations direction
             background_color text_color recursive = Inr paths"
    and "1 \<le> start" and "start \<le> modulus"
    and "(direction \<and> multiplier \<noteq> 0) \<or> (\<not> direction \<and> 2 \<le> modulus)"
  shows "arrows_of paths \<subseteq> {1..modulus} \<times> {1..modulus}
         \<and> (\<forall>n. (digital_root n modulus = Inr 0) = (n = 0))"
proof -
  from assms(1) obtain palette where m: "0 < modulus" and
    run: "plot_paths env palette start multiplier modulus iterations direction recursive =
            Inr paths"
    by (rule plot_modulus_circle_InrE)
  have start: "on_circle modulus start"
    using assms(2,3) by (simp add: on_circle_def)
  have first: "\<forall>e \<in> set arrows. on_circle modulus (fst e) \<and> on_circle modulus (snd e)"
    if "plot_path start multiplier modulus iterations direction start {} = Inr (visited, arrows)"
    for visited arrows
    using plot_path_loop_on_circle [OF assms(4) start] that by (simp add: plot_path_def)
  have edges: "\<forall>q \<in> set paths. \<forall>e \<in> set (edges q).
            on_circle modulus (fst e) \<and> on_circle modulus (snd e)"
    using run
  proof (cases rule: plot_paths_InrE)
    case (1 c visited arrows)
    with first show ?thesis by simp
  next
    case (2 c visited arrows visited' color_index)
    have pts: "\<forall>p \<in> set [1..modulus]. on_circle modulus p"
      by (simp add: on_circle_def)
    have init: "\<forall>q \<in> set [\<lparr>seed = start, color = c, edges = arrows\<rparr>].
        \<forall>e \<in> set (edges q). on_circle modulus (fst e) \<and> on_circle modulus (snd e)"
      using first [OF 2(1)] by simp
    from plot_unvisited_on_circle [OF assms(4) 2(3) pts init] show ?thesis .
  qed
  have "(digital_root n modulus = Inr 0) = (n = 0)" for n
  proof (cases "n = 0")
    case True
    then show ?thesis by (simp add: digital_root_def)
  next
    case False
    with digital_root_pos [of modulus n] m show ?thesis by auto
  qed
  moreover have "arrows_of paths \<subseteq> {1..modulus} \<times> {1..modulus}"
    using edges by (fastforce simp: arrows_of_def on_circle_def)
  ultimately show ?thesis by simp
qed

theorem points_on_circle_witness:
  "plot_modulus_circle test_env 9 3 9 9 True ''black'' ''white'' True =
     Inr [\<lparr>seed = 9, color = ''aliceblue'', edges = [(9, 9)]\<rparr>,
          \<lparr>seed = 1, color = ''antiquewhite'', edges = [(1, 3), (3, 9)]\<rparr>,
          \<lparr>seed = 2, color = ''aquamarine'', edges = [(2, 6), (6, 9)]\<rparr>,
          \<lparr>seed = 4, color = ''azure'', edges = [(4, 3), (3, 9)]\<rparr>,
          \<lparr>seed = 5, color = ''beige'', edges = [(5, 6), (6, 9)]\<rparr>,
          \<lparr>seed = 7, color = ''bisque'', edges = [(7, 3), (3, 9)]\<rparr>,
          \<lparr>seed = 8, color = ''blanchedalmond'', edges = [(8, 6), (6, 9)]\<rparr>]
   \<and> (1::int) \<le> 9 \<and> (9::int) \<le> 9 \<and> (3::int) \<noteq> 0
   \<and> arrows_of
         [\<lparr>seed = 9, color = ''aliceblue'', edges = [(9, 9)]\<rparr>,
          \<lparr>seed = 1, color = ''antiquewhite'', edges = [(1, 3), (3, 9)]\<rparr>,
          \<lparr>seed = 2, color = ''aquamarine'', edges = [(2, 6), (6, 9)]\<rparr>,
          \<lparr>seed = 4, color = ''azure'', edges = [(4, 3), (3, 9)]\<rparr>,
          \<lparr>seed = 5, color = ''beige'', edges = [(5, 6), (6, 9)]\<rparr>,
          \<lparr>seed = 7, color = ''bisque'', edges = [(7, 3), (3, 9)]\<rparr>,
          \<lparr>seed = 8, color = ''blanchedalmond'', edges = [(8, 6), (6, 9)]\<rparr>]
       \<subseteq> {1..9} \<times> {1..9}
   \<and> (digital_root 9 9 = Inr 0) = ((9::int) = 0)"
proof -
  have run: "plot_modulus_circle test_env 9 3 9 9 True ''black'' ''white'' True =
     Inr [\<lparr>seed = 9, color = ''aliceblue'', edges = [(9, 9)]\<rparr>,
          \<lparr>seed = 1, color = ''antiquewhite'', edges = [(1, 3), (3, 9)]\<rparr>,
          \<lparr>seed = 2, color = ''aquamarine'', edges = [(2, 6), (6, 9)]\<rparr>,
          \<lparr>seed = 4, color = ''azure'', edges = [(4, 3), (3, 9)]\<rparr>,
          \<lparr>seed = 5, color = ''beige'', edges = [(5, 6), (6, 9)]\<rparr>,
          \<lparr>seed = 7, color = ''bisque'', edges = [(7, 3), (3, 9)]\<rparr>,
          \<lparr>seed = 8, color = ''blanchedalmond'', edges = [(8, 6), (6, 9)]\<rparr>]"
    by (simp add: plot_modulus_circle_test plot_paths_test_9)
  have cond: "(True \<and> (3::int) \<noteq> 0) \<or> (\<not> True \<and> (2::int) \<le> 9)" by simp
  from points_on_circle [OF run _ _ cond] run show ?thesis by simp
qed

theorem points_on_circle_counterexample:
  "plot_modulus_circle test_env 1 1 1 1 False ''black'' ''white'' True =
     Inr [\<lparr>seed = 1, color = ''aliceblue'', edges = [(1, 0)]\<rparr>]
   \<and> plot_modulus_circle test_env 1 0 9 2 True ''black'' ''white'' False =
     Inr [\<lparr>seed = 1, color = ''aliceblue'', edges = [(1, 0), (0, 0)]\<rparr>]"
  by (simp add: plot_modulus_circle_test plot_paths_test_1 plot_paths_test_mult0)

section \<open>The palette\<close>

lemma distinct_colors: "distinct colors"
  by code_simp

lemma length_colors: "length colors = 147"
  by (simp add: colors_def)

lemma filter_colors_loop_resolves:
  "filter_colors_loop env low high cs acc = Inr out \<Longrightarrow> \<forall>c \<in> set cs. resolves env c"
proof (induction cs arbitrary: acc)
  case Nil
  then show ?case by simp
next
  case (Cons c cs)
  from Cons.prems obtain rgb where rgb: "to_rgb env c = Inr rgb"
    by (cases "to_rgb env c") simp_all
  then have here: "resolves env c"
    by (simp add: resolves_def)
  show ?case
  proof (cases "fle env low (luminance env rgb) \<and> fle env (luminance env rgb) high")
    case True
    with Cons.prems rgb have "filter_colors_loop env low high cs (acc @ [c]) = Inr out"
      by simp
    from Cons.IH [OF this] here show ?thesis by simp
  next
    case False
    with Cons.prems rgb have "filter_colors_loop env low high cs acc = Inr out"
      by auto
    from Cons.IH [OF this] here show ?thesis by simp
  qed
qed

lemma filter_colors_loop_filter:
  "\<forall>c \<in> set cs. resolves env c \<Longrightarrow>
   filter_colors_loop env low high cs acc = Inr (acc @ filter (in_band env low high) cs)"
proof (induction cs arbitrary: acc)
  case Nil
  then show ?case by simp
next
  case (Cons c cs)
  from Cons.prems obtain rgb where rgb: "to_rgb env c = Inr rgb"
    by (cases "to_rgb env c") (simp_all add: resolves_def)
  from Cons.prems have rest: "\<forall>c \<in> set cs. resolves env c"
    by simp
  show ?case
    using Cons.IH [OF rest] rgb by (simp add: in_band_def)
qed

lemma filter_colors_filter:
  assumes "filter_colors env cs low high = Inr out"
  shows "out = filter (in_band env low high) cs"
proof -
  have "\<forall>c \<in> set cs. resolves env c"
    using assms filter_colors_loop_resolves by (simp add: filter_colors_def)
  from filter_colors_loop_filter [OF this, of low high "[]"] assms show ?thesis
    by (simp add: filter_colors_def)
qed

lemma in_band_formula:
  "in_band env lo hi =
     (\<lambda>c. case to_rgb env c of
            Inl e \<Rightarrow> False
          | Inr (r, g, b) \<Rightarrow>
              fle env lo
                (fadd env
                  (fadd env (fmul env (lit env (2126 / 10000)) r)
                            (fmul env (lit env (7152 / 10000)) g))
                  (fmul env (lit env (722 / 10000)) b))
              \<and> fle env
                (fadd env
                  (fadd env (fmul env (lit env (2126 / 10000)) r)
                            (fmul env (lit env (7152 / 10000)) g))
                  (fmul env (lit env (722 / 10000)) b))
                hi)"
  by (rule ext) (simp add: in_band_def luminance_def split: sum.splits prod.splits)


text \<open>
  C9. \<open>filter_colors\<close> keeps a colour exactly when its luminance
  \<open>0.2126 R + 0.7152 G + 0.0722 B\<close>, computed with the float operations in that
  order, lies between the two thresholds, and it keeps the order of the input: when every
  name resolves the result is the input filtered by that test, and every result the call
  returns is that list. The call builds a new list and changes nothing else. With the
  default thresholds every colour of the output has its luminance between 0.3 and 0.7.
\<close>

theorem filter_colors_spec:
  "(let lum = (\<lambda>r g b.
          fadd env
            (fadd env (fmul env (lit env (2126 / 10000)) r)
                      (fmul env (lit env (7152 / 10000)) g))
            (fmul env (lit env (722 / 10000)) b));
        kept = (\<lambda>lo hi c.
          case to_rgb env c of
            Inl e \<Rightarrow> False
          | Inr (r, g, b) \<Rightarrow> fle env lo (lum r g b) \<and> fle env (lum r g b) hi)
    in ((\<forall>c \<in> set cs. resolves env c) \<longrightarrow>
          filter_colors env cs low high = Inr (filter (kept low high) cs))
       \<and> (filter_colors env cs low high = Inr out \<longrightarrow> out = filter (kept low high) cs)
       \<and> (filter_colors env cs (low_threshold_default env) (high_threshold_default env)
             = Inr out' \<longrightarrow>
           (\<forall>c \<in> set out'. kept (lit env (3 / 10)) (lit env (7 / 10)) c)))"
proof -
  have a: "filter_colors env cs low high = Inr (filter (in_band env low high) cs)"
    if "\<forall>c \<in> set cs. resolves env c"
    using filter_colors_loop_filter [OF that, of low high "[]"]
    by (simp add: filter_colors_def)
  have b: "out = filter (in_band env low high) cs"
    if "filter_colors env cs low high = Inr out"
    using that by (rule filter_colors_filter)
  have c: "in_band env (lit env (3 / 10)) (lit env (7 / 10)) c"
    if run: "filter_colors env cs (low_threshold_default env) (high_threshold_default env)
          = Inr out'" and c: "c \<in> set out'" for c
    using filter_colors_filter [OF run] c
    by (simp add: low_threshold_default_def high_threshold_default_def)
  from a b c have
    "((\<forall>c \<in> set cs. resolves env c) \<longrightarrow>
          filter_colors env cs low high = Inr (filter (in_band env low high) cs))
       \<and> (filter_colors env cs low high = Inr out \<longrightarrow>
            out = filter (in_band env low high) cs)
       \<and> (filter_colors env cs (low_threshold_default env) (high_threshold_default env)
             = Inr out' \<longrightarrow>
           (\<forall>c \<in> set out'. in_band env (lit env (3 / 10)) (lit env (7 / 10)) c))"
    by blast
  then show ?thesis
    unfolding Let_def in_band_formula .
qed

theorem filter_colors_spec_witness:
  "list_all (resolves test_env)
     [''black'', ''red'', ''lime'', ''blue'', ''gray'', ''white'', ''orange'']
   \<and> filter_colors test_env
         [''black'', ''red'', ''lime'', ''blue'', ''gray'', ''white'', ''orange'']
         (3 / 10) (7 / 10) = Inr [''gray'', ''orange'']
   \<and> filter_colors test_env
         [''black'', ''red'', ''lime'', ''blue'', ''gray'', ''white'', ''orange'']
         (2126 / 10000) (2126 / 10000) = Inr [''red'']
   \<and> filter_colors test_env
         [''black'', ''red'', ''lime'', ''blue'', ''gray'', ''white'', ''orange'']
         (7152 / 10000) (7152 / 10000) = Inr [''lime'']
   \<and> filter_colors test_env
         [''black'', ''red'', ''lime'', ''blue'', ''gray'', ''white'', ''orange'']
         (722 / 10000) (722 / 10000) = Inr [''blue'']
   \<and> filter_colors test_env
         [''black'', ''red'', ''lime'', ''blue'', ''gray'', ''white'', ''orange'']
         (low_threshold_default test_env) (high_threshold_default test_env) =
       Inr [''gray'', ''orange'']
   \<and> to_rgb test_env ''orange'' = Inr (1, 165 / 255, 0)
   \<and> (3 / 10 :: rat) \<le> 2126 / 10000 * 1 + 7152 / 10000 * (165 / 255) + 722 / 10000 * 0
   \<and> (2126 / 10000 * 1 + 7152 / 10000 * (165 / 255) + 722 / 10000 * 0 :: rat) \<le> 7 / 10"
proof -
  let ?W = "[''black'', ''red'', ''lime'', ''blue'', ''gray'', ''white'', ''orange'']"
  have res: "\<forall>c \<in> set ?W. resolves test_env c"
    by (simp add: resolves_def test_env_def css_table_def)
  have thr: "low_threshold_default test_env = 3 / 10"
    "high_threshold_default test_env = 7 / 10"
    by (simp_all add: low_threshold_default_def high_threshold_default_def test_env_def)
  have band: "filter_colors test_env ?W (3 / 10) (7 / 10) = Inr [''gray'', ''orange'']"
    using filter_colors_spec [of test_env ?W "3 / 10" "7 / 10" "[]" "[]", unfolded Let_def,
        THEN conjunct1, THEN mp, OF res]
    by (simp add: test_env_def css_table_def)
  have red: "filter_colors test_env ?W (2126 / 10000) (2126 / 10000) = Inr [''red'']"
    using filter_colors_spec [of test_env ?W "2126 / 10000" "2126 / 10000" "[]" "[]", unfolded Let_def,
        THEN conjunct1, THEN mp, OF res]
    by (simp add: test_env_def css_table_def)
  have lime: "filter_colors test_env ?W (7152 / 10000) (7152 / 10000) = Inr [''lime'']"
    using filter_colors_spec [of test_env ?W "7152 / 10000" "7152 / 10000" "[]" "[]", unfolded Let_def,
        THEN conjunct1, THEN mp, OF res]
    by (simp add: test_env_def css_table_def)
  have blue: "filter_colors test_env ?W (722 / 10000) (722 / 10000) = Inr [''blue'']"
    using filter_colors_spec [of test_env ?W "722 / 10000" "722 / 10000" "[]" "[]", unfolded Let_def,
        THEN conjunct1, THEN mp, OF res]
    by (simp add: test_env_def css_table_def)
  have dflt: "filter_colors test_env ?W (low_threshold_default test_env)
      (high_threshold_default test_env) = Inr [''gray'', ''orange'']"
    using band by (simp add: thr)
  have orange: "to_rgb test_env ''orange'' = Inr (1, 165 / 255, 0)
    \<and> (3 / 10 :: rat) \<le> 2126 / 10000 * 1 + 7152 / 10000 * (165 / 255) + 722 / 10000 * 0
    \<and> (2126 / 10000 * 1 + 7152 / 10000 * (165 / 255) + 722 / 10000 * 0 :: rat) \<le> 7 / 10"
    using filter_colors_spec [of test_env ?W "3 / 10" "7 / 10" "[]" "[''gray'', ''orange'']",
        unfolded Let_def, THEN conjunct2, THEN conjunct2, THEN mp, OF dflt]
    by (simp add: test_env_def css_table_def)
  from res band red lime blue dflt orange show ?thesis
    by (simp add: list_all_iff)
qed

lemma arc_palette_test_gray:
  "arc_palette test_env ''gray'' ''orange'' =
     Inr (remove1 ''orange'' (remove1 ''gray'' test_palette))"
  by code_simp

lemma arc_palette_InrE:
  assumes "arc_palette env background_color text_color = Inr palette"
  obtains "background_color \<in> set colors"
    and "text_color \<in> set (remove1 background_color colors)"
    and "filter_colors env (remove1 text_color (remove1 background_color colors))
           (low_threshold_default env) (high_threshold_default env) = Inr palette"
proof -
  have bg: "background_color \<in> set colors"
    using assms by (cases "background_color \<in> set colors")
      (simp_all add: arc_palette_def list_remove_def)
  have fg: "text_color \<in> set (remove1 background_color colors)"
    using assms bg by (cases "text_color \<in> set (remove1 background_color colors)")
      (simp_all add: arc_palette_def list_remove_def)
  from assms bg fg that show thesis
    by (simp add: arc_palette_def list_remove_def)
qed

text \<open>
  C8. The background colour and the text colour are not in the palette the path colours
  are drawn from: whenever lines 140-142 build a palette, neither name is in it.
\<close>

theorem palette_excludes:
  assumes "arc_palette env background_color text_color = Inr palette"
  shows "background_color \<notin> set palette \<and> text_color \<notin> set palette"
proof -
  from assms have run:
    "filter_colors env (remove1 text_color (remove1 background_color colors))
       (low_threshold_default env) (high_threshold_default env) = Inr palette"
    by (rule arc_palette_InrE)
  have "set palette \<subseteq> set (remove1 text_color (remove1 background_color colors))"
    using filter_colors_filter [OF run] by auto
  also have "\<dots> = set colors - {background_color} - {text_color}"
    using distinct_colors by (simp add: set_remove1_eq)
  finally show ?thesis by auto
qed

theorem palette_excludes_witness:
  "arc_palette test_env ''gray'' ''orange'' =
     Inr (remove1 ''orange'' (remove1 ''gray'' test_palette))
   \<and> ''gray'' \<in> set test_palette \<and> ''orange'' \<in> set test_palette
   \<and> ''gray'' \<notin> set (remove1 ''orange'' (remove1 ''gray'' test_palette))
   \<and> ''orange'' \<notin> set (remove1 ''orange'' (remove1 ''gray'' test_palette))"
proof -
  have "''gray'' \<in> set test_palette" "''orange'' \<in> set test_palette"
    by (simp_all add: test_palette_def)
  with palette_excludes [OF arc_palette_test_gray] arc_palette_test_gray
  show ?thesis by simp
qed

lemma arc_palette_unlisted:
  assumes "background_color \<notin> set colors \<or> text_color \<notin> set colors"
  shows "arc_palette env background_color text_color =
           Inl (ValueError ''list.remove(x): x not in list'')"
proof (cases "background_color \<in> set colors")
  case False
  then show ?thesis
    by (simp add: arc_palette_def list_remove_def)
next
  case True
  with assms have "text_color \<notin> set colors"
    by simp
  then have "text_color \<notin> set (remove1 background_color colors)"
    using notin_set_remove1 by fast
  with True show ?thesis
    by (simp add: arc_palette_def list_remove_def)
qed

text \<open>
  C10. When \<open>background_color\<close> or \<open>text_color\<close> is not one of the 147 names of the
  list, \<open>plot_modulus_circle\<close> ends with an exception and draws no path; for a positive
  modulus (otherwise lines 79-85 raise first) the exception is the \<open>ValueError\<close> of
  \<open>list.remove\<close>.
\<close>

theorem unlisted_color_raises:
  assumes "background_color \<notin> set colors \<or> text_color \<notin> set colors"
  shows "length colors = 147
    \<and> (\<exists>e. plot_modulus_circle env start multiplier modulus iterations direction
              background_color text_color recursive = Inl e)
    \<and> (0 < modulus \<longrightarrow>
         plot_modulus_circle env start multiplier modulus iterations direction
           background_color text_color recursive =
         Inl (ValueError ''list.remove(x): x not in list''))"
  using arc_palette_unlisted [OF assms, of env] length_colors
  by (simp add: plot_modulus_circle_def)

theorem unlisted_color_raises_witness:
  "''#000000'' \<notin> set colors \<and> length colors = 147 \<and> (0::int) < 9
   \<and> plot_modulus_circle test_env 2 2 9 18 True ''#000000'' ''white'' True =
       Inl (ValueError ''list.remove(x): x not in list'')"
proof -
  have hex: "''#000000'' \<notin> set colors"
    by (simp add: colors_def)
  then have "''#000000'' \<notin> set colors \<or> ''white'' \<notin> set colors"
    by simp
  from unlisted_color_raises [OF this, of test_env 2 2 9 18 True True] hex
  show ?thesis by simp
qed

end
